theory Spec2Isabelle
  imports Complex_Main
begin

section \<open>Numeric values of the script\<close>

text \<open>
  Every number the script handles is a NumPy double: a finite number or one of three
  special values. NumPy raises neither on a division by zero nor on an overflow; it
  yields an infinity or a NaN (and prints a warning). The special values follow the
  IEEE 754 rules below.

  On finite values the model keeps what decides the script's assertions. An operation
  whose result leaves the range of a double yields an infinity, and a square below the
  normal range is rounded to the grid of the subnormal doubles (to zero when it is small
  enough), both as binary64 does with rounding to nearest, ties to even. A finite result
  in the normal range is kept exact: its rounding to 53 significant bits is not modelled,
  nor is the rounding of a quotient below the normal range (an absolute error of at most
  \<^verbatim>\<open>2^-1075\<close>), nor the sign of zero (the only divisor the script ever builds is a square
  root, which is never a negative zero). A sum of two doubles that falls below the
  normal range is exact in binary64, so addition has the overflow case only.
\<close>

datatype npfloat = Fin real | PInf | NInf | NaN

datatype error = AssertionError | IndexError | ValueError | DeviceError

text \<open>
  A result of this magnitude or more rounds to an infinity: the midpoint between the
  largest double, \<^verbatim>\<open>2^1024 - 2^971\<close>, and \<^verbatim>\<open>2^1024\<close>.
\<close>

definition ovf_limit :: real where
  "ovf_limit = 2 ^ 1024 - 2 ^ 970"

text \<open>The smallest positive normal double; below it doubles are \<^verbatim>\<open>2^-1074\<close> apart.\<close>

definition min_normal :: real where
  "min_normal = 1 / 2 ^ 1022"

definition overflow :: "real \<Rightarrow> npfloat" where
  "overflow z =
     (if ovf_limit \<le> z then PInf
      else if z \<le> - ovf_limit then NInf
      else Fin z)"

text \<open>Rounding to the nearest integer, ties to the even one.\<close>

definition rne :: "real \<Rightarrow> int" where
  "rne r =
     (let f = \<lfloor>r\<rfloor>; d = r - of_int f
      in if d < 1 / 2 then f
         else if 1 / 2 < d then f + 1
         else if even f then f else f + 1)"

fun np_neg :: "npfloat \<Rightarrow> npfloat" where
  "np_neg (Fin x) = Fin (- x)"
| "np_neg PInf = NInf"
| "np_neg NInf = PInf"
| "np_neg NaN = NaN"

fun np_abs :: "npfloat \<Rightarrow> npfloat" where
  "np_abs (Fin x) = Fin \<bar>x\<bar>"
| "np_abs PInf = PInf"
| "np_abs NInf = PInf"
| "np_abs NaN = NaN"

fun np_add :: "npfloat \<Rightarrow> npfloat \<Rightarrow> npfloat" where
  "np_add NaN b = NaN"
| "np_add a NaN = NaN"
| "np_add (Fin x) (Fin y) = overflow (x + y)"
| "np_add (Fin x) b = b"
| "np_add a (Fin y) = a"
| "np_add PInf PInf = PInf"
| "np_add NInf NInf = NInf"
| "np_add PInf NInf = NaN"
| "np_add NInf PInf = NaN"

definition np_sub :: "npfloat \<Rightarrow> npfloat \<Rightarrow> npfloat" where
  "np_sub a b = np_add a (np_neg b)"

text \<open>\<^verbatim>\<open>values ** 2\<close>, the square of one entry.\<close>

fun np_square :: "npfloat \<Rightarrow> npfloat" where
  "np_square (Fin x) =
     (if ovf_limit \<le> x\<^sup>2 then PInf
      else if x\<^sup>2 < min_normal then Fin (of_int (rne (x\<^sup>2 * 2 ^ 1074)) / 2 ^ 1074)
      else Fin (x\<^sup>2))"
| "np_square PInf = PInf"
| "np_square NInf = PInf"
| "np_square NaN = NaN"

fun np_sqrt :: "npfloat \<Rightarrow> npfloat" where
  "np_sqrt (Fin x) = (if 0 \<le> x then Fin (sqrt x) else NaN)"
| "np_sqrt PInf = PInf"
| "np_sqrt NInf = NaN"
| "np_sqrt NaN = NaN"

fun np_div :: "npfloat \<Rightarrow> npfloat \<Rightarrow> npfloat" where
  "np_div NaN b = NaN"
| "np_div a NaN = NaN"
| "np_div (Fin x) (Fin y) =
     (if y \<noteq> 0 then overflow (x / y)
      else if 0 < x then PInf
      else if x < 0 then NInf
      else NaN)"
| "np_div (Fin x) b = Fin 0"
| "np_div PInf (Fin y) = (if 0 \<le> y then PInf else NInf)"
| "np_div NInf (Fin y) = (if 0 \<le> y then NInf else PInf)"
| "np_div a b = NaN"

text \<open>\<^verbatim>\<open>a <= b\<close>: every comparison with a NaN is false.\<close>

fun np_le :: "npfloat \<Rightarrow> npfloat \<Rightarrow> bool" where
  "np_le NaN b = False"
| "np_le a NaN = False"
| "np_le (Fin x) (Fin y) = (x \<le> y)"
| "np_le NInf b = True"
| "np_le a PInf = True"
| "np_le a b = False"

definition np_ge :: "npfloat \<Rightarrow> npfloat \<Rightarrow> bool" where
  "np_ge a b = np_le b a"

text \<open>
  \<^verbatim>\<open>np.sum\<close> of a one-dimensional array. The script sums squares only; on numbers
  that are not negative the order of the additions decides neither whether the sum
  overflows nor, rounding apart, its value.
\<close>

definition np_sum :: "npfloat list \<Rightarrow> npfloat" where
  "np_sum xs = foldr np_add xs (Fin 0)"


section \<open>Normalisation\<close>

text \<open>
  \<^verbatim>\<open>def normalize(values):
    mean = np.sqrt(np.sum(values ** 2))
    return  np.array(values / mean)\<close>
\<close>

definition normalize :: "npfloat list \<Rightarrow> npfloat list" where
  "normalize values =
     (let mean = np_sqrt (np_sum (map np_square values))
      in map (\<lambda>v. np_div v mean) values)"

text \<open>
  The check that follows every call of \<open>normalize\<close> in the script:
  \<^verbatim>\<open>assert np.abs(1-np.sum(v ** 2))<=0.0000001\<close>
\<close>

definition unit_norm_check :: "npfloat list \<Rightarrow> bool" where
  "unit_norm_check v =
     np_le (np_abs (np_sub (Fin 1) (np_sum (map np_square v)))) (Fin (1 / 10 ^ 7))"

text \<open>
  The normalisation loop over the rows of \<open>real_values\<close>: each row is replaced by its
  normal form and checked; the first failing check aborts the script.
\<close>

fun normalize_real_values :: "npfloat list list \<Rightarrow> error + npfloat list list" where
  "normalize_real_values [] = Inr []"
| "normalize_real_values (row # rows) =
     (let r = normalize row
      in if unit_norm_check r
         then (case normalize_real_values rows of
                 Inl e \<Rightarrow> Inl e
               | Inr rs \<Rightarrow> Inr (r # rs))
         else Inl AssertionError)"


section \<open>Loading the real data\<close>

text \<open>
  A data file is a table of numbers, one row per line: timestamp, x, y and z velocity.
  It is given here as the list of its lines, each the list of the numbers on it.

  \<^verbatim>\<open>np.loadtxt\<close> skips empty lines, refuses lines of different lengths and, with its
  default \<^verbatim>\<open>ndmin=0\<close>, squeezes every axis of length one out of the result: a file of
  one line comes back as a one-dimensional array, not as a table of one row.
\<close>

datatype ndarray = Arr0 npfloat | Arr1 "npfloat list" | Arr2 "npfloat list list"

definition loadtxt :: "npfloat list list \<Rightarrow> error + ndarray" where
  "loadtxt file =
     (case filter (\<lambda>line. line \<noteq> []) file of
        [] \<Rightarrow> Inr (Arr1 [])
      | r # rs \<Rightarrow>
          if \<not> list_all (\<lambda>r'. length r' = length r) rs then Inl ValueError
          else if rs = [] then (case r of [x] \<Rightarrow> Inr (Arr0 x) | _ \<Rightarrow> Inr (Arr1 r))
          else if length r = 1 then Inr (Arr1 (concat (r # rs)))
          else Inr (Arr2 (r # rs)))"

text \<open>
  The body of the loading loop for one file; \<open>n\<close> is the number of real values kept.
  \<^verbatim>\<open>data = np.loadtxt(...)
selected_data = data[:,1:4]
selected_data = selected_data.reshape(len(selected_data)*3)
real_values[i][0:min(n,len(selected_data))] = selected_data[0:min(n,len(selected_data))]\<close>
  The two-index subscript \<^verbatim>\<open>data[:,1:4]\<close> raises IndexError on an array of fewer than two
  dimensions; \<^verbatim>\<open>reshape\<close> raises ValueError when the number of entries is not the one
  asked for. The row \<open>real_values[i]\<close> holds \<open>n\<close> zeros before the assignment.
\<close>

definition load_real_data :: "nat \<Rightarrow> npfloat list list \<Rightarrow> error + npfloat list" where
  "load_real_data n file =
     (case loadtxt file of
        Inl e \<Rightarrow> Inl e
      | Inr (Arr2 data) \<Rightarrow>
          (let selected_data = map (\<lambda>row. take 3 (drop 1 row)) data
           in if length (concat selected_data) \<noteq> length selected_data * 3
              then Inl ValueError
              else (let flat = concat selected_data;
                        k = min n (length flat)
                    in Inr (take k flat @ drop k (replicate n (Fin 0)))))
      | Inr _ \<Rightarrow> Inl IndexError)"

text \<open>The loop over the \<open>m\<close> files: the first error aborts the script.\<close>

fun load_real_values :: "nat \<Rightarrow> npfloat list list list \<Rightarrow> error + npfloat list list" where
  "load_real_values n [] = Inr []"
| "load_real_values n (file # files) =
     (case load_real_data n file of
        Inl e \<Rightarrow> Inl e
      | Inr row \<Rightarrow>
          (case load_real_values n files of
             Inl e \<Rightarrow> Inl e
           | Inr rows \<Rightarrow> Inr (row # rows)))"

text \<open>
  The loader as the specification words it: drop the first column, flatten the remaining
  columns row by row, keep the first \<open>min n available\<close> values and fill up with zeros.
\<close>

definition spec_load :: "nat \<Rightarrow> npfloat list list \<Rightarrow> npfloat list" where
  "spec_load n file =
     (let flat = concat (map (drop 1) file);
          k = min n (length flat)
      in take k flat @ replicate (n - k) (Fin 0))"


section \<open>Cost functions\<close>

text \<open>
  The discriminator circuit and the generator circuit run on PennyLane's simulators;
  both are parameters here. A circuit evaluation returns a number or raises.
\<close>

type_synonym weights = "npfloat list list list"

type_synonym gen_weights = "npfloat list list"

type_synonym circuit = "npfloat list \<Rightarrow> weights \<Rightarrow> error + npfloat"

type_synonym generator = "gen_weights \<Rightarrow> error + npfloat list"

text \<open>
  \<^verbatim>\<open>def prob_real_true(real_values,disc_weights):
    r = real_disc_circuit(real_values,disc_weights)
    assert(r>=-1 and r<=1)
    p = (r + 1) / 2
    assert(p>=0 and r<=1)
    return p\<close>
\<close>

definition prob_real_true :: "circuit \<Rightarrow> npfloat list \<Rightarrow> weights \<Rightarrow> error + npfloat" where
  "prob_real_true real_disc_circuit real_values disc_weights =
     (case real_disc_circuit real_values disc_weights of
        Inl e \<Rightarrow> Inl e
      | Inr r \<Rightarrow>
          if \<not> (np_ge r (Fin (- 1)) \<and> np_le r (Fin 1)) then Inl AssertionError
          else (let p = np_div (np_add r (Fin 1)) (Fin 2)
                in if \<not> (np_ge p (Fin 0) \<and> np_le r (Fin 1)) then Inl AssertionError
                   else Inr p))"

definition prob_fake_true :: "circuit \<Rightarrow> npfloat list \<Rightarrow> weights \<Rightarrow> error + npfloat" where
  "prob_fake_true real_disc_circuit fake_values disc_weights =
     (case real_disc_circuit fake_values disc_weights of
        Inl e \<Rightarrow> Inl e
      | Inr r \<Rightarrow>
          if \<not> (np_ge r (Fin (- 1)) \<and> np_le r (Fin 1)) then Inl AssertionError
          else (let p = np_div (np_add r (Fin 1)) (Fin 2)
                in if \<not> (np_ge p (Fin 0) \<and> np_le r (Fin 1)) then Inl AssertionError
                   else Inr p))"

text \<open>
  \<^verbatim>\<open>def disc_cost(fake_values,real_values,disc_weights):
    cost = prob_fake_true(fake_values,disc_weights) - prob_real_true(real_values,disc_weights)
    return cost\<close>
  The left operand is evaluated first.
\<close>

definition disc_cost :: "circuit \<Rightarrow> npfloat list \<Rightarrow> npfloat list \<Rightarrow> weights \<Rightarrow> error + npfloat" where
  "disc_cost real_disc_circuit fake_values real_values disc_weights =
     (case prob_fake_true real_disc_circuit fake_values disc_weights of
        Inl e \<Rightarrow> Inl e
      | Inr pf \<Rightarrow>
          (case prob_real_true real_disc_circuit real_values disc_weights of
             Inl e \<Rightarrow> Inl e
           | Inr pr \<Rightarrow> Inr (np_sub pf pr)))"

text \<open>
  \<^verbatim>\<open>def gen_cost(params,disc_weights):
    fake_values = mean_photon_gaussian(params)
    norm_fake_values = normalize(fake_values)
    assert np.abs(1-np.sum(norm_fake_values ** 2))<=0.0000001
    cost = - prob_fake_true(norm_fake_values,disc_weights)
    return cost\<close>
\<close>

definition gen_cost :: "generator \<Rightarrow> circuit \<Rightarrow> gen_weights \<Rightarrow> weights \<Rightarrow> error + npfloat" where
  "gen_cost mean_photon_gaussian real_disc_circuit params disc_weights =
     (case mean_photon_gaussian params of
        Inl e \<Rightarrow> Inl e
      | Inr fake_values \<Rightarrow>
          (let norm_fake_values = normalize fake_values
           in if \<not> unit_norm_check norm_fake_values then Inl AssertionError
              else (case prob_fake_true real_disc_circuit norm_fake_values disc_weights of
                      Inl e \<Rightarrow> Inl e
                    | Inr p \<Rightarrow> Inr (np_neg p))))"


section \<open>Discriminator optimisation\<close>

text \<open>
  The state the loop updates: the discriminator weights, the state of NumPy's random
  generator and the last cost computed. The optimiser's step and the random generator
  are parameters.
  \<^verbatim>\<open>for i in range(steps):
    j = np.random.randint(0,len(real_values))
    disc_weights = opt.step(lambda v: disc_cost(fake_values,real_values[j,:],v),disc_weights)
    cost = disc_cost(fake_values,real_values[j,:],disc_weights)\<close>
\<close>

record 'g disc_state =
  disc_weights :: weights
  rng :: 'g
  cost :: "npfloat option"

type_synonym optimizer = "(weights \<Rightarrow> error + npfloat) \<Rightarrow> weights \<Rightarrow> error + weights"

type_synonym 'g randint = "'g \<Rightarrow> nat \<Rightarrow> nat \<Rightarrow> error + nat \<times> 'g"

fun disc_loop ::
  "optimizer \<Rightarrow> 'g randint \<Rightarrow> circuit \<Rightarrow> npfloat list \<Rightarrow> npfloat list list \<Rightarrow>
   nat \<Rightarrow> 'g disc_state \<Rightarrow> error + 'g disc_state" where
  "disc_loop opt_step randint real_disc_circuit fake_values real_values 0 s = Inr s"
| "disc_loop opt_step randint real_disc_circuit fake_values real_values (Suc k) s =
     (case randint (rng s) 0 (length real_values) of
        Inl e \<Rightarrow> Inl e
      | Inr (j, g) \<Rightarrow>
          if length real_values \<le> j then Inl IndexError
          else (let row = real_values ! j
                in case opt_step (\<lambda>v. disc_cost real_disc_circuit fake_values row v)
                          (disc_weights s) of
                     Inl e \<Rightarrow> Inl e
                   | Inr w \<Rightarrow>
                       (case disc_cost real_disc_circuit fake_values row w of
                          Inl e \<Rightarrow> Inl e
                        | Inr c \<Rightarrow>
                            disc_loop opt_step randint real_disc_circuit fake_values
                              real_values k
                              (s\<lparr>disc_weights := w, rng := g, cost := Some c\<rparr>))))"

text \<open>\<^verbatim>\<open>range(steps)\<close> is empty for a step count that is zero or negative.\<close>

definition disc_optimization ::
  "optimizer \<Rightarrow> 'g randint \<Rightarrow> circuit \<Rightarrow> npfloat list \<Rightarrow> npfloat list list \<Rightarrow>
   int \<Rightarrow> 'g disc_state \<Rightarrow> error + 'g disc_state" where
  "disc_optimization opt_step randint real_disc_circuit fake_values real_values steps s =
     disc_loop opt_step randint real_disc_circuit fake_values real_values (nat steps) s"


section \<open>Facts about the numeric model\<close>

lemma np_add_commute: "np_add a b = np_add b a"
  by (cases a; cases b) (simp_all add: add.commute)

lemma np_sum_Nil: "np_sum [] = Fin 0"
  by (simp add: np_sum_def)

lemma np_sum_Cons: "np_sum (x # xs) = np_add x (np_sum xs)"
  by (simp add: np_sum_def)

text \<open>
  Where no result leaves the normal range the operations are those of the real numbers.
\<close>

lemma ovf_limit_large: "10 ^ 126 < ovf_limit"
  by (simp add: ovf_limit_def)

lemma min_normal_small: "min_normal \<le> 1 / 10 ^ 246"
  by (simp add: min_normal_def field_simps)

lemma overflow_exact: "\<bar>z\<bar> < ovf_limit \<Longrightarrow> overflow z = Fin z"
  by (auto simp: overflow_def)

lemma rne_zero: "rne 0 = 0"
  by (simp add: rne_def)

lemma np_square_exact:
  assumes "x = 0 \<or> min_normal \<le> x\<^sup>2" and "x\<^sup>2 < ovf_limit"
  shows "np_square (Fin x) = Fin (x\<^sup>2)"
proof (cases "x = 0")
  case True
  then show ?thesis using assms(2) by (simp add: rne_zero)
next
  case False
  with assms show ?thesis by simp
qed

lemma np_sum_exact:
  assumes "\<forall>y \<in> set ys. 0 \<le> y" and "sum_list ys < ovf_limit"
  shows "np_sum (map Fin ys) = Fin (sum_list ys)"
  using assms
proof (induction ys)
  case Nil
  then show ?case by (simp add: np_sum_Nil)
next
  case (Cons y ys)
  have nn: "0 \<le> sum_list ys" using Cons.prems(1) by (simp add: sum_list_nonneg)
  have y: "0 \<le> y" using Cons.prems(1) by simp
  have "sum_list ys < ovf_limit" using Cons.prems(2) y by simp
  with Cons have ih: "np_sum (map Fin ys) = Fin (sum_list ys)" by simp
  have "\<bar>y + sum_list ys\<bar> < ovf_limit" using Cons.prems(2) y nn by simp
  then show ?case by (simp add: np_sum_Cons ih overflow_exact)
qed

text \<open>Sums of squares of real numbers.\<close>

lemma sum_squares_nonneg: "0 \<le> (\<Sum>x\<leftarrow>xs. (x::real)\<^sup>2)"
  by (induction xs) simp_all

lemma square_le_sum_squares: "x \<in> set xs \<Longrightarrow> x\<^sup>2 \<le> (\<Sum>x\<leftarrow>xs. (x::real)\<^sup>2)"
proof (induction xs)
  case Nil
  then show ?case by simp
next
  case (Cons a xs)
  have "0 \<le> (\<Sum>x\<leftarrow>xs. x\<^sup>2)" by (rule sum_squares_nonneg)
  with Cons show ?case by auto (smt (verit) zero_le_power2)
qed

lemma sum_squares_scaled: "(\<Sum>x\<leftarrow>xs. (x / c)\<^sup>2) = (\<Sum>x\<leftarrow>xs. (x::real)\<^sup>2) / c\<^sup>2"
  by (induction xs) (simp_all add: power_divide add_divide_distrib)

lemma sum_squares_bound:
  assumes "\<forall>x \<in> set xs. x\<^sup>2 \<le> B"
  shows "(\<Sum>x\<leftarrow>xs. (x::real)\<^sup>2) \<le> real (length xs) * B"
  using assms by (induction xs) (auto simp: algebra_simps)


section \<open>Normalisation without overflow or underflow\<close>

text \<open>
  On a vector of finite entries whose squares are zero or normal doubles and whose sum of
  squares does not overflow, \<open>normalize\<close> divides every entry by the Euclidean norm, and
  no special value appears.
\<close>

lemma squares_sum_exact:
  assumes "\<forall>x \<in> set xs. x = 0 \<or> min_normal \<le> x\<^sup>2"
    and "(\<Sum>x\<leftarrow>xs. x\<^sup>2) < ovf_limit"
  shows "np_sum (map np_square (map Fin xs)) = Fin (\<Sum>x\<leftarrow>xs. x\<^sup>2)"
proof -
  have "np_square (Fin x) = Fin (x\<^sup>2)" if "x \<in> set xs" for x
  proof -
    have "x\<^sup>2 < ovf_limit"
      using square_le_sum_squares [OF that] assms(2) by simp
    moreover have "x = 0 \<or> min_normal \<le> x\<^sup>2"
      using assms(1) that by blast
    ultimately show ?thesis by (intro np_square_exact)
  qed
  then have "map np_square (map Fin xs) = map Fin (map power2 xs)"
    by (simp del: np_square.simps)
  moreover have "\<forall>y \<in> set (map power2 xs). (0::real) \<le> y" by simp
  ultimately show ?thesis
    using assms(2) by (simp only: np_sum_exact)
qed

lemma normalize_exact:
  assumes "\<forall>x \<in> set xs. x = 0 \<or> min_normal \<le> x\<^sup>2"
    and "(\<Sum>x\<leftarrow>xs. x\<^sup>2) < ovf_limit"
    and "sqrt (\<Sum>x\<leftarrow>xs. x\<^sup>2) \<noteq> 0"
  shows "normalize (map Fin xs) = map Fin (map (\<lambda>x. x / sqrt (\<Sum>x\<leftarrow>xs. x\<^sup>2)) xs)"
proof -
  let ?S = "\<Sum>x\<leftarrow>xs. x\<^sup>2"
  have mean: "np_sqrt (np_sum (map np_square (map Fin xs))) = Fin (sqrt ?S)"
    by (simp only: squares_sum_exact [OF assms(1,2)] np_sqrt.simps sum_squares_nonneg if_True)
  have pos: "0 < sqrt ?S"
    using assms(3) sum_squares_nonneg [of xs] by (simp add: less_le)
  have one: "1 < ovf_limit" using ovf_limit_large by simp
  have "np_div (Fin x) (Fin (sqrt ?S)) = Fin (x / sqrt ?S)" if "x \<in> set xs" for x
  proof -
    have "\<bar>x\<bar> = sqrt (x\<^sup>2)" by simp
    also have "\<dots> \<le> sqrt ?S"
      by (rule real_sqrt_le_mono) (rule square_le_sum_squares [OF that])
    finally have "\<bar>x\<bar> \<le> sqrt ?S" .
    then have "\<bar>x / sqrt ?S\<bar> \<le> 1" using pos by (simp add: field_simps)
    then have "\<bar>x / sqrt ?S\<bar> < ovf_limit" using one by simp
    then show ?thesis
      using assms(3) by (simp add: overflow_exact del: real_sqrt_eq_zero_cancel_iff)
  qed
  then have "map (\<lambda>v. np_div v (Fin (sqrt ?S))) (map Fin xs) = map Fin (map (\<lambda>x. x / sqrt ?S) xs)"
    by simp
  then show ?thesis
    unfolding normalize_def Let_def mean .
qed

lemma normalized_sum_squares:
  assumes "sqrt (\<Sum>x\<leftarrow>xs. x\<^sup>2) \<noteq> 0"
  shows "(\<Sum>y\<leftarrow>map (\<lambda>x. x / sqrt (\<Sum>x\<leftarrow>xs. x\<^sup>2)) xs. y\<^sup>2) = 1"
proof -
  let ?S = "\<Sum>x\<leftarrow>xs. x\<^sup>2"
  have nn: "0 \<le> ?S" by (rule sum_squares_nonneg)
  from assms have nz: "?S \<noteq> 0" by auto
  have "(\<Sum>y\<leftarrow>map (\<lambda>x. x / sqrt ?S) xs. y\<^sup>2) = (\<Sum>x\<leftarrow>xs. (x / sqrt ?S)\<^sup>2)"
    by (simp add: o_def)
  also have "\<dots> = ?S / (sqrt ?S)\<^sup>2" by (rule sum_squares_scaled)
  also have "\<dots> = 1" using nn nz by simp
  finally show ?thesis .
qed

lemma unit_norm_check_exact:
  assumes "\<forall>y \<in> set ys. y = 0 \<or> min_normal \<le> y\<^sup>2"
    and "(\<Sum>y\<leftarrow>ys. y\<^sup>2) < ovf_limit"
  shows "unit_norm_check (map Fin ys) \<longleftrightarrow> \<bar>1 - (\<Sum>y\<leftarrow>ys. y\<^sup>2)\<bar> \<le> 1 / 10 ^ 7"
proof -
  let ?s = "\<Sum>y\<leftarrow>ys. y\<^sup>2"
  have nn: "0 \<le> ?s" by (rule sum_squares_nonneg)
  have one: "1 < ovf_limit" using ovf_limit_large by simp
  have "\<bar>1 - ?s\<bar> < ovf_limit" using nn assms(2) one by simp
  then have "np_sub (Fin 1) (Fin ?s) = Fin (1 - ?s)"
    by (simp add: np_sub_def overflow_exact)
  then have "np_abs (np_sub (Fin 1) (np_sum (map np_square (map Fin ys)))) = Fin \<bar>1 - ?s\<bar>"
    by (simp only: squares_sum_exact [OF assms] np_abs.simps)
  then show ?thesis
    unfolding unit_norm_check_def by (simp only: np_le.simps)
qed


section \<open>Vectors of moderate entries\<close>

text \<open>
  A vector is moderate here when it has at most \<^verbatim>\<open>10^6\<close> entries and each entry is zero
  or has a magnitude between \<^verbatim>\<open>10^-60\<close> and \<^verbatim>\<open>10^60\<close>. On such a vector with a non-zero
  entry, no square and no sum in \<open>normalize\<close> or in the unit-norm check leaves the normal
  range of the doubles, with a margin that covers the rounding the model leaves out.
\<close>

lemma moderate_square:
  assumes "1 / 10 ^ 60 \<le> \<bar>x::real\<bar>" and "\<bar>x\<bar> \<le> 10 ^ 60"
  shows "1 / 10 ^ 120 \<le> x\<^sup>2" and "x\<^sup>2 \<le> 10 ^ 120"
proof -
  have "(1 / 10 ^ 60)\<^sup>2 \<le> \<bar>x\<bar>\<^sup>2"
    using assms(1) by (intro power_mono) simp_all
  then show "1 / 10 ^ 120 \<le> x\<^sup>2" by (simp add: power_divide)
  have "\<bar>x\<bar>\<^sup>2 \<le> (10 ^ 60)\<^sup>2"
    using assms(2) by (intro power_mono) simp_all
  then show "x\<^sup>2 \<le> 10 ^ 120" by simp
qed

lemma moderate_squares_normal:
  assumes "\<forall>x \<in> set xs. x = 0 \<or> 1 / 10 ^ 60 \<le> \<bar>x\<bar> \<and> \<bar>x\<bar> \<le> 10 ^ 60"
  shows "\<forall>x \<in> set xs. x = 0 \<or> min_normal \<le> x\<^sup>2"
proof
  fix x assume "x \<in> set xs"
  with assms have "x = 0 \<or> 1 / 10 ^ 60 \<le> \<bar>x\<bar> \<and> \<bar>x\<bar> \<le> 10 ^ 60" by blast
  then show "x = 0 \<or> min_normal \<le> x\<^sup>2"
  proof
    assume "x = 0" then show ?thesis by simp
  next
    assume "1 / 10 ^ 60 \<le> \<bar>x\<bar> \<and> \<bar>x\<bar> \<le> 10 ^ 60"
    then have "1 / 10 ^ 120 \<le> x\<^sup>2" using moderate_square(1) by blast
    moreover have "min_normal \<le> 1 / 10 ^ 120"
      by (simp add: min_normal_def field_simps)
    ultimately show ?thesis by simp
  qed
qed

lemma moderate_sum_upper:
  fixes xs :: "real list"
  assumes "length xs \<le> 10 ^ 6"
    and "\<forall>x \<in> set xs. x = 0 \<or> 1 / 10 ^ 60 \<le> \<bar>x\<bar> \<and> \<bar>x\<bar> \<le> 10 ^ 60"
  shows "(\<Sum>x\<leftarrow>xs. x\<^sup>2) \<le> 10 ^ 126"
proof -
  have "x\<^sup>2 \<le> 10 ^ 120" if "x \<in> set xs" for x :: real
  proof (cases "x = 0")
    case True
    then show ?thesis by simp
  next
    case False
    with assms(2) that have "1 / 10 ^ 60 \<le> \<bar>x\<bar> \<and> \<bar>x\<bar> \<le> 10 ^ 60" by blast
    then show ?thesis using moderate_square(2) by blast
  qed
  then have "\<forall>x \<in> set xs. x\<^sup>2 \<le> 10 ^ 120" by blast
  then have "(\<Sum>x\<leftarrow>xs. x\<^sup>2) \<le> real (length xs) * 10 ^ 120"
    by (rule sum_squares_bound)
  also have "\<dots> \<le> 10 ^ 6 * 10 ^ 120"
  proof (rule mult_right_mono)
    have "real (length xs) \<le> real (10 ^ 6)" using assms(1) by (rule of_nat_mono)
    then show "real (length xs) \<le> 10 ^ 6" by simp
  qed simp
  also have "\<dots> = (10::real) ^ 126" by simp
  finally show ?thesis .
qed

lemma moderate_normalized_normal:
  assumes "length xs \<le> 10 ^ 6"
    and "\<forall>x \<in> set xs. x = 0 \<or> 1 / 10 ^ 60 \<le> \<bar>x\<bar> \<and> \<bar>x\<bar> \<le> 10 ^ 60"
    and "sqrt (\<Sum>x\<leftarrow>xs. x\<^sup>2) \<noteq> 0"
  shows "\<forall>y \<in> set (map (\<lambda>x. x / sqrt (\<Sum>x\<leftarrow>xs. x\<^sup>2)) xs). y = 0 \<or> min_normal \<le> y\<^sup>2"
proof -
  let ?S = "\<Sum>x\<leftarrow>xs. x\<^sup>2"
  have nn: "0 \<le> ?S" by (rule sum_squares_nonneg)
  with assms(3) have pos: "0 < ?S" by (simp add: less_le)
  have up: "?S \<le> 10 ^ 126" using assms(1,2) by (rule moderate_sum_upper)
  have "x / sqrt ?S = 0 \<or> min_normal \<le> (x / sqrt ?S)\<^sup>2" if "x \<in> set xs" for x
  proof (cases "x = 0")
    case True
    then show ?thesis by simp
  next
    case False
    with assms(2) that have lo: "1 / 10 ^ 120 \<le> x\<^sup>2"
      using moderate_square(1) by blast
    have eq: "(x / sqrt ?S)\<^sup>2 = x\<^sup>2 / ?S" using nn by (simp add: power_divide)
    have "min_normal \<le> 1 / 10 ^ 120 / 10 ^ 126"
      by (simp add: min_normal_def field_simps)
    also have "\<dots> \<le> x\<^sup>2 / ?S"
      using lo up pos by (intro frac_le) simp_all
    finally have "min_normal \<le> (x / sqrt ?S)\<^sup>2" unfolding eq .
    then show ?thesis ..
  qed
  then show ?thesis by simp
qed

text \<open>
  What every moderate vector with a non-zero entry gives: the normal form, the unit-norm
  check on it, and that normalising the normal form returns it.
\<close>

lemma moderate_normalize:
  assumes "length xs \<le> 10 ^ 6"
    and "\<forall>x \<in> set xs. x = 0 \<or> 1 / 10 ^ 60 \<le> \<bar>x\<bar> \<and> \<bar>x\<bar> \<le> 10 ^ 60"
    and "sqrt (\<Sum>x\<leftarrow>xs. x\<^sup>2) \<noteq> 0"
  shows "normalize (map Fin xs) = map Fin (map (\<lambda>x. x / sqrt (\<Sum>x\<leftarrow>xs. x\<^sup>2)) xs)"
    and "unit_norm_check (map Fin (map (\<lambda>x. x / sqrt (\<Sum>x\<leftarrow>xs. x\<^sup>2)) xs))"
    and "normalize (map Fin (map (\<lambda>x. x / sqrt (\<Sum>x\<leftarrow>xs. x\<^sup>2)) xs))
         = map Fin (map (\<lambda>x. x / sqrt (\<Sum>x\<leftarrow>xs. x\<^sup>2)) xs)"
proof -
  let ?S = "\<Sum>x\<leftarrow>xs. x\<^sup>2"
  let ?ys = "map (\<lambda>x. x / sqrt ?S) xs"
  have sq: "\<forall>x \<in> set xs. x = 0 \<or> min_normal \<le> x\<^sup>2"
    using assms(2) by (rule moderate_squares_normal)
  have "?S \<le> 10 ^ 126" using assms(1,2) by (rule moderate_sum_upper)
  then have lim: "?S < ovf_limit" using ovf_limit_large by simp
  show "normalize (map Fin xs) = map Fin ?ys"
    using sq lim assms(3) by (rule normalize_exact)
  have ysq: "\<forall>y \<in> set ?ys. y = 0 \<or> min_normal \<le> y\<^sup>2"
    using assms by (rule moderate_normalized_normal)
  have one: "(\<Sum>y\<leftarrow>?ys. y\<^sup>2) = 1"
    using assms(3) by (rule normalized_sum_squares)
  have ylim: "(\<Sum>y\<leftarrow>?ys. y\<^sup>2) < ovf_limit"
    unfolding one using ovf_limit_large by simp
  show "unit_norm_check (map Fin ?ys)"
    unfolding unit_norm_check_exact [OF ysq ylim] one by simp
  have "sqrt (\<Sum>y\<leftarrow>?ys. y\<^sup>2) \<noteq> 0" unfolding one by simp
  with ysq ylim have "normalize (map Fin ?ys) = map Fin (map (\<lambda>y. y / sqrt (\<Sum>y\<leftarrow>?ys. y\<^sup>2)) ?ys)"
    by (rule normalize_exact)
  also have "\<dots> = map Fin ?ys" unfolding one by simp
  finally show "normalize (map Fin ?ys) = map Fin ?ys" .
qed

text \<open>Two concrete vectors: a moderate one, and one whose square overflows.\<close>

lemma sqrt_25: "sqrt 25 = 5"
  using real_sqrt_abs [of 5] by simp

lemma moderate_3_4:
  "length [3, 4, 0, 0 :: real] \<le> 10 ^ 6"
  "\<forall>x \<in> set [3, 4, 0, 0 :: real]. x = 0 \<or> 1 / 10 ^ 60 \<le> \<bar>x\<bar> \<and> \<bar>x\<bar> \<le> 10 ^ 60"
  "sqrt (\<Sum>x\<leftarrow>[3, 4, 0, 0 :: real]. x\<^sup>2) \<noteq> 0"
  by simp_all

lemma normalize_3_4:
  "normalize (map Fin [3, 4, 0, 0]) = [Fin (3 / 5), Fin (4 / 5), Fin 0, Fin 0]"
  "unit_norm_check [Fin (3 / 5), Fin (4 / 5), Fin 0, Fin 0]"
proof -
  have s: "sqrt (\<Sum>x\<leftarrow>[3, 4, 0, 0 :: real]. x\<^sup>2) = 5" by (simp add: sqrt_25)
  show "normalize (map Fin [3, 4, 0, 0]) = [Fin (3 / 5), Fin (4 / 5), Fin 0, Fin 0]"
    unfolding moderate_normalize(1) [OF moderate_3_4] s by simp
  show "unit_norm_check [Fin (3 / 5), Fin (4 / 5), Fin 0, Fin 0]"
    using moderate_normalize(2) [OF moderate_3_4] unfolding s by simp
qed




text \<open>The all-zero vector.\<close>

lemma normalize_zero: "normalize (replicate n (Fin 0)) = replicate n NaN"
proof -
  have "np_sum (map np_square (replicate n (Fin 0))) = Fin 0"
    by (induction n)
      (simp_all add: np_sum_Nil np_sum_Cons rne_zero ovf_limit_def min_normal_def overflow_def)
  then show ?thesis by (simp add: normalize_def)
qed

lemma unit_norm_check_NaN: "\<not> unit_norm_check (replicate n NaN)"
proof (cases n)
  case 0
  then show ?thesis
    by (simp add: unit_norm_check_def np_sum_Nil np_sub_def overflow_def ovf_limit_def)
next
  case (Suc k)
  then show ?thesis by (simp add: unit_norm_check_def np_sum_Cons np_sub_def)
qed


section \<open>Unit norm\<close>





section \<open>Normalising twice\<close>





section \<open>The all-zero vector\<close>

text \<open>
  C3, as stated: an all-zero vector makes \<open>normalize\<close> raise instead of returning NaNs.
  It does not raise: on the zero vector of length 4 it returns four NaNs.
\<close>

theorem normalize_zero_counterexample:
  "normalize [Fin 0, Fin 0, Fin 0, Fin 0] = [NaN, NaN, NaN, NaN]"
  by (simp add: normalize_def np_sum_def ovf_limit_def min_normal_def rne_def overflow_def)

text \<open>
  A data set that holds an all-zero row never gets through the normalisation loop, and
  an all-zero generator output never gets through \<open>gen_cost\<close>.
\<close>

lemma zero_row_aborts:
  "replicate n (Fin 0) \<in> set rows \<Longrightarrow> normalize_real_values rows = Inl AssertionError"
proof (induction rows)
  case Nil
  then show ?case by simp
next
  case (Cons row rows)
  show ?case
  proof (cases "row = replicate n (Fin 0)")
    case True
    then show ?thesis by (simp add: normalize_zero unit_norm_check_NaN)
  next
    case False
    with Cons.prems have "replicate n (Fin 0) \<in> set rows" by simp
    then have "normalize_real_values rows = Inl AssertionError" by (rule Cons.IH)
    then show ?thesis by (simp add: Let_def)
  qed
qed

lemma gen_cost_zero_output:
  "mean_photon_gaussian params = Inr (replicate n (Fin 0)) \<Longrightarrow>
   gen_cost mean_photon_gaussian c params w = Inl AssertionError"
  by (simp add: gen_cost_def normalize_zero unit_norm_check_NaN)

text \<open>
  C3, amended: on an all-zero vector of any length \<open>normalize\<close> returns the all-NaN
  vector without raising; the unit-norm assertion that follows the call in the
  normalisation loop then fails, so the loop aborts with an AssertionError on every data
  set that holds an all-zero row.
\<close>

theorem normalize_zero_assertion:
  "normalize (replicate n (Fin 0)) = replicate n NaN
 \<and> (replicate n (Fin 0) \<in> set real_values
      \<longrightarrow> normalize_real_values real_values = Inl AssertionError)"
  by (simp add: normalize_zero zero_row_aborts)

theorem normalize_zero_assertion_witness:
  "replicate 4 (Fin 0) \<in> set [ [Fin 3, Fin 4, Fin 0, Fin 0], [Fin 0, Fin 0, Fin 0, Fin 0]]
 \<and> normalize (replicate 4 (Fin 0)) = replicate 4 NaN
 \<and> normalize_real_values [ [Fin 3, Fin 4, Fin 0, Fin 0], [Fin 0, Fin 0, Fin 0, Fin 0]]
     = Inl AssertionError
 \<and> normalize_real_values [ [Fin 3, Fin 4, Fin 0, Fin 0]]
     = Inr [ [Fin (3 / 5), Fin (4 / 5), Fin 0, Fin 0]]"
proof -
  have h: "replicate 4 (Fin 0) \<in> set [ [Fin 3, Fin 4, Fin 0, Fin 0], [Fin 0, Fin 0, Fin 0, Fin 0]]"
    by (simp add: numeral_eq_Suc)
  have ok: "normalize_real_values [ [Fin 3, Fin 4, Fin 0, Fin 0]]
              = Inr [ [Fin (3 / 5), Fin (4 / 5), Fin 0, Fin 0]]"
    using normalize_3_4 by simp
  show ?thesis
    using h ok
      normalize_zero_assertion [of 4 "[ [Fin 3, Fin 4, Fin 0, Fin 0], [Fin 0, Fin 0, Fin 0, Fin 0]]"]
    by blast
qed


section \<open>Probabilities and costs\<close>

text \<open>For \<open>r\<close> between -1 and 1 neither \<open>r + 1\<close> nor its half overflows.\<close>

lemma affine_exact:
  assumes "- 1 \<le> r" and "r \<le> 1"
  shows "np_div (np_add (Fin r) (Fin 1)) (Fin 2) = Fin ((r + 1) / 2)"
proof -
  have two: "2 < ovf_limit" using ovf_limit_large by simp
  have "\<bar>r + 1\<bar> < ovf_limit" using assms two by simp
  then have add: "np_add (Fin r) (Fin 1) = Fin (r + 1)"
    by (simp add: overflow_exact)
  have "\<bar>(r + 1) / 2\<bar> < ovf_limit" using assms two by simp
  then have "np_div (Fin (r + 1)) (Fin 2) = Fin ((r + 1) / 2)"
    by (simp add: overflow_exact)
  with add show ?thesis by simp
qed

text \<open>
  C1. Whenever the discriminator circuit returns an expectation value \<open>r\<close> with
  \<open>-1 \<le> r \<le> 1\<close>, both \<open>prob_real_true\<close> and \<open>prob_fake_true\<close> pass their
  assertions and return \<open>(r + 1) / 2\<close>, which lies between 0 and 1. The witness takes
  the three boundary values: \<open>r = -1, 0, 1\<close> give \<open>p = 0, 1/2, 1\<close>.
\<close>

theorem prob_true_affine:
  assumes "real_disc_circuit v w = Inr (Fin r)" and "- 1 \<le> r" and "r \<le> 1"
  shows "prob_real_true real_disc_circuit v w = Inr (Fin ((r + 1) / 2))
       \<and> prob_fake_true real_disc_circuit v w = Inr (Fin ((r + 1) / 2))
       \<and> 0 \<le> (r + 1) / 2 \<and> (r + 1) / 2 \<le> 1"
  using assms
  by (simp add: prob_real_true_def prob_fake_true_def np_ge_def affine_exact
      del: np_add.simps np_div.simps)

theorem prob_true_affine_witness:
  "prob_real_true (\<lambda>v w. case v of [] \<Rightarrow> Inl DeviceError | x # _ \<Rightarrow> Inr x) [Fin (- 1)] [] = Inr (Fin 0)
 \<and> prob_real_true (\<lambda>v w. case v of [] \<Rightarrow> Inl DeviceError | x # _ \<Rightarrow> Inr x) [Fin 0] [] = Inr (Fin (1 / 2))
 \<and> prob_real_true (\<lambda>v w. case v of [] \<Rightarrow> Inl DeviceError | x # _ \<Rightarrow> Inr x) [Fin 1] [] = Inr (Fin 1)
 \<and> prob_fake_true (\<lambda>v w. case v of [] \<Rightarrow> Inl DeviceError | x # _ \<Rightarrow> Inr x) [Fin (- 1)] [] = Inr (Fin 0)
 \<and> prob_fake_true (\<lambda>v w. case v of [] \<Rightarrow> Inl DeviceError | x # _ \<Rightarrow> Inr x) [Fin 0] [] = Inr (Fin (1 / 2))
 \<and> prob_fake_true (\<lambda>v w. case v of [] \<Rightarrow> Inl DeviceError | x # _ \<Rightarrow> Inr x) [Fin 1] [] = Inr (Fin 1)"
  using prob_true_affine [of "\<lambda>v w. case v of [] \<Rightarrow> Inl DeviceError | x # _ \<Rightarrow> Inr x" "[Fin (- 1)]" "[]" "- 1"]
        prob_true_affine [of "\<lambda>v w. case v of [] \<Rightarrow> Inl DeviceError | x # _ \<Rightarrow> Inr x" "[Fin 0]" "[]" 0]
        prob_true_affine [of "\<lambda>v w. case v of [] \<Rightarrow> Inl DeviceError | x # _ \<Rightarrow> Inr x" "[Fin 1]" "[]" 1]
  by simp

text \<open>
  C10. \<open>prob_real_true\<close> and \<open>prob_fake_true\<close> are the same function of the circuit,
  the input vector and the weights: same value, same errors.
\<close>

theorem prob_real_fake_same:
  "prob_real_true real_disc_circuit v w = prob_fake_true real_disc_circuit v w"
  by (simp add: prob_real_true_def prob_fake_true_def)

text \<open>A probability that is returned is a finite number between 0 and 1.\<close>

lemma prob_fake_true_Fin:
  assumes "prob_fake_true c v w = Inr p"
  shows "\<exists>a. p = Fin a \<and> 0 \<le> a \<and> a \<le> 1"
proof -
  from assms obtain r where r: "c v w = Inr r"
    by (auto simp: prob_fake_true_def split: sum.splits)
  with assms have chk: "np_le (Fin (- 1)) r" "np_le r (Fin 1)"
    by (auto simp: prob_fake_true_def np_ge_def split: if_splits)
  then obtain x where x: "r = Fin x" "- 1 \<le> x" "x \<le> 1"
    by (cases r) auto
  with assms r have "p = Fin ((x + 1) / 2)"
    by (auto simp: prob_fake_true_def np_ge_def affine_exact Let_def
        simp del: np_add.simps np_div.simps split: if_splits)
  moreover have "0 \<le> (x + 1) / 2" "(x + 1) / 2 \<le> 1" using x by simp_all
  ultimately show ?thesis by blast
qed

lemma prob_real_true_Fin:
  assumes "prob_real_true c v w = Inr p"
  shows "\<exists>a. p = Fin a \<and> 0 \<le> a \<and> a \<le> 1"
proof -
  from assms obtain r where r: "c v w = Inr r"
    by (auto simp: prob_real_true_def split: sum.splits)
  with assms have chk: "np_le (Fin (- 1)) r" "np_le r (Fin 1)"
    by (auto simp: prob_real_true_def np_ge_def split: if_splits)
  then obtain x where x: "r = Fin x" "- 1 \<le> x" "x \<le> 1"
    by (cases r) auto
  with assms r have "p = Fin ((x + 1) / 2)"
    by (auto simp: prob_real_true_def np_ge_def affine_exact Let_def
        simp del: np_add.simps np_div.simps split: if_splits)
  moreover have "0 \<le> (x + 1) / 2" "(x + 1) / 2 \<le> 1" using x by simp_all
  ultimately show ?thesis by blast
qed

text \<open>
  C4. \<open>disc_cost\<close> is the probability of fake true minus the probability of real true:
  when both probabilities are returned, the cost is their difference, a difference of two
  finite numbers; when \<open>prob_fake_true\<close> raises, or \<open>prob_real_true\<close> raises after it,
  the cost raises the same error.
\<close>

theorem disc_cost_is_difference:
  "(\<forall>pf pr. prob_fake_true c fake_values w = Inr pf \<and> prob_real_true c real_values w = Inr pr
       \<longrightarrow> disc_cost c fake_values real_values w = Inr (np_sub pf pr)
         \<and> (\<exists>a b. pf = Fin a \<and> pr = Fin b \<and> np_sub pf pr = Fin (a - b)))
 \<and> (\<forall>e. prob_fake_true c fake_values w = Inl e
       \<longrightarrow> disc_cost c fake_values real_values w = Inl e)
 \<and> (\<forall>pf e. prob_fake_true c fake_values w = Inr pf \<and> prob_real_true c real_values w = Inl e
       \<longrightarrow> disc_cost c fake_values real_values w = Inl e)"
proof (intro conjI allI impI)
  fix pf pr
  assume h: "prob_fake_true c fake_values w = Inr pf \<and> prob_real_true c real_values w = Inr pr"
  then show "disc_cost c fake_values real_values w = Inr (np_sub pf pr)"
    by (simp add: disc_cost_def)
  from h obtain a b where ab: "pf = Fin a" "0 \<le> a" "a \<le> 1" "pr = Fin b" "0 \<le> b" "b \<le> 1"
    using prob_fake_true_Fin prob_real_true_Fin by blast
  have "2 < ovf_limit" using ovf_limit_large by simp
  with ab have "\<bar>a - b\<bar> < ovf_limit" by simp
  then have "np_sub (Fin a) (Fin b) = Fin (a - b)"
    by (simp add: np_sub_def overflow_exact)
  with ab show "\<exists>a b. pf = Fin a \<and> pr = Fin b \<and> np_sub pf pr = Fin (a - b)"
    by blast
next
  fix e
  assume "prob_fake_true c fake_values w = Inl e"
  then show "disc_cost c fake_values real_values w = Inl e"
    by (simp add: disc_cost_def)
next
  fix pf e
  assume "prob_fake_true c fake_values w = Inr pf \<and> prob_real_true c real_values w = Inl e"
  then show "disc_cost c fake_values real_values w = Inl e"
    by (simp add: disc_cost_def)
qed

text \<open>A circuit that returns the first amplitude, for concrete evaluations.\<close>

lemma head_circuit_values:
  "prob_fake_true (\<lambda>v w. case v of [] \<Rightarrow> Inl DeviceError | x # _ \<Rightarrow> Inr x) [Fin 0] [] = Inr (Fin (1 / 2))"
  "prob_real_true (\<lambda>v w. case v of [] \<Rightarrow> Inl DeviceError | x # _ \<Rightarrow> Inr x) [Fin 1] [] = Inr (Fin 1)"
  "prob_fake_true (\<lambda>v w. case v of [] \<Rightarrow> Inl DeviceError | x # _ \<Rightarrow> Inr x) [] [] = Inl DeviceError"
  "prob_real_true (\<lambda>v w. case v of [] \<Rightarrow> Inl DeviceError | x # _ \<Rightarrow> Inr x) [Fin 2] [] = Inl AssertionError"
  using affine_exact [of 0] affine_exact [of 1]
  by (simp_all add: prob_fake_true_def prob_real_true_def np_ge_def
      del: np_add.simps np_div.simps)

theorem disc_cost_is_difference_witness:
  "prob_fake_true (\<lambda>v w. case v of [] \<Rightarrow> Inl DeviceError | x # _ \<Rightarrow> Inr x) [Fin 0] [] = Inr (Fin (1 / 2))
 \<and> prob_real_true (\<lambda>v w. case v of [] \<Rightarrow> Inl DeviceError | x # _ \<Rightarrow> Inr x) [Fin 1] [] = Inr (Fin 1)
 \<and> disc_cost (\<lambda>v w. case v of [] \<Rightarrow> Inl DeviceError | x # _ \<Rightarrow> Inr x) [Fin 0] [Fin 1] [] = Inr (Fin (- 1 / 2))
 \<and> prob_fake_true (\<lambda>v w. case v of [] \<Rightarrow> Inl DeviceError | x # _ \<Rightarrow> Inr x) [] [] = Inl DeviceError
 \<and> disc_cost (\<lambda>v w. case v of [] \<Rightarrow> Inl DeviceError | x # _ \<Rightarrow> Inr x) [] [Fin 1] [] = Inl DeviceError
 \<and> prob_real_true (\<lambda>v w. case v of [] \<Rightarrow> Inl DeviceError | x # _ \<Rightarrow> Inr x) [Fin 2] [] = Inl AssertionError
 \<and> disc_cost (\<lambda>v w. case v of [] \<Rightarrow> Inl DeviceError | x # _ \<Rightarrow> Inr x) [Fin 0] [Fin 2] [] = Inl AssertionError"
proof -
  let ?c = "\<lambda>(v::npfloat list) (w::weights). case v of [] \<Rightarrow> Inl DeviceError | x # _ \<Rightarrow> Inr x"
  note pf = head_circuit_values(1) and pr = head_circuit_values(2)
    and pe = head_circuit_values(3) and pa = head_circuit_values(4)
  have sub: "np_sub (Fin (1 / 2)) (Fin 1) = Fin (- 1 / 2)"
    by (simp add: np_sub_def overflow_def ovf_limit_def)
  from disc_cost_is_difference [of ?c "[Fin 0]" "[]" "[Fin 1]"] pf pr sub
  have d1: "disc_cost ?c [Fin 0] [Fin 1] [] = Inr (Fin (- 1 / 2))" by simp
  from disc_cost_is_difference [of ?c "[]" "[]" "[Fin 1]"] pe
  have d2: "disc_cost ?c [] [Fin 1] [] = Inl DeviceError" by simp
  from disc_cost_is_difference [of ?c "[Fin 0]" "[]" "[Fin 2]"] pf pa
  have d3: "disc_cost ?c [Fin 0] [Fin 2] [] = Inl AssertionError" by simp
  from pf pr pe pa d1 d2 d3 show ?thesis by simp
qed





section \<open>The training loop\<close>

text \<open>
  C8. With a step count of zero the discriminator loop runs no iteration: it returns the
  state it was given, so the discriminator weights after the loop are the weights before
  it, whatever the optimiser, the random generator and the data are.
\<close>

theorem disc_optimization_zero_steps:
  "disc_optimization opt_step randint real_disc_circuit fake_values real_values 0 s = Inr s
 \<and> map_sum id disc_weights
      (disc_optimization opt_step randint real_disc_circuit fake_values real_values 0 s)
    = Inr (disc_weights s)"
  by (simp add: disc_optimization_def)


section \<open>The data loader\<close>

text \<open>
  On a file of at least two lines of four numbers each, the loader does what the
  specification says.
\<close>

lemma loadtxt_table:
  assumes "2 \<le> length table" and "\<forall>row \<in> set table. length row = 4"
  shows "loadtxt table = Inr (Arr2 table)"
proof -
  from assms(2) have ne: "filter (\<lambda>line. line \<noteq> []) table = table"
    by (auto simp: filter_id_conv)
  from assms(1) obtain r r' rs where f: "table = r # r' # rs"
    by (cases table; cases "tl table") auto
  with assms(2) show ?thesis
    unfolding loadtxt_def ne by (auto simp: f list_all_iff)
qed

lemma concat_length_3:
  assumes "\<forall>row \<in> set rows. length row = 3"
  shows "length (concat rows) = length rows * 3"
  using assms by (induction rows) simp_all

lemma load_real_data_table:
  assumes "2 \<le> length table" and "\<forall>row \<in> set table. length row = 4"
  shows "load_real_data n table = Inr (spec_load n table)"
proof -
  have sel: "map (\<lambda>row. take 3 (drop 1 row)) table = map (drop 1) table"
    using assms(2) by simp
  have "\<forall>row \<in> set (map (drop 1) table). length row = 3"
    using assms(2) by simp
  then have len: "length (concat (map (drop 1) table)) = length (map (drop 1) table) * 3"
    by (rule concat_length_3)
  show ?thesis
    unfolding load_real_data_def loadtxt_table [OF assms] sum.case ndarray.case sel Let_def
    using len by (simp add: spec_load_def Let_def)
qed

text \<open>A file of a single line is not loaded at all, whatever the line holds.\<close>

lemma load_single_row: "load_real_data n [row] = Inl IndexError"
  by (cases row; cases "tl row") (auto simp: load_real_data_def loadtxt_def split: list.splits)

text \<open>
  C7. The claim asks, for every input file, for the values after the timestamp, cut or
  zero-padded to length \<open>n\<close>. On the file of the single line \<open>0 1 2 3\<close> with \<open>n = 4\<close>
  that is \<open>[1, 2, 3, 0]\<close>; the script raises IndexError instead, since the loaded
  array is one-dimensional and is subscripted with two indices.
\<close>

theorem load_one_line_file:
  "load_real_data 4 [ [Fin 0, Fin 1, Fin 2, Fin 3]] = Inl IndexError
 \<and> spec_load 4 [ [Fin 0, Fin 1, Fin 2, Fin 3]] = [Fin 1, Fin 2, Fin 3, Fin 0]"
  by (simp add: load_real_data_def loadtxt_def spec_load_def)

end
